theory Spec2Isabelle
  imports Main "HOL-Library.Sublist"
begin

section \<open>Values exchanged with the remote client\<close>

text \<open>
  The remote client of \<^verbatim>\<open>backlog-client.ts\<close> is typed \<^verbatim>\<open>any\<close>. The text fields
  the wrapper inspects (\<^verbatim>\<open>description\<close>, \<^verbatim>\<open>content\<close>, \<^verbatim>\<open>textFormattingRule\<close> and the
  \<^verbatim>\<open>message\<close> of an error) are modelled by the three shapes such a field takes in a
  response or in an \<^verbatim>\<open>Error\<close> object: absent (\<^verbatim>\<open>undefined\<close>), \<^verbatim>\<open>null\<close>, or a string.
  Numeric identifiers are integers. Calls to the logger have no effect on what the
  operations return or request and are left out.
\<close>

datatype js_value = JUndefined | JNull | JStr string

text \<open>JavaScript's \<^verbatim>\<open>ToBoolean\<close> on these values: only a non-empty string is truthy.\<close>

fun truthy :: "js_value \<Rightarrow> bool" where
  "truthy JUndefined = False"
| "truthy JNull = False"
| "truthy (JStr s) = (s \<noteq> [])"

text \<open>The operator \<^verbatim>\<open>a || b\<close>.\<close>

definition js_or :: "js_value \<Rightarrow> js_value \<Rightarrow> js_value" where
  "js_or a b = (if truthy a then a else b)"

text \<open>The string a value contributes to a template literal \<^verbatim>\<open>`${v}`\<close>.\<close>

fun template_str :: "js_value \<Rightarrow> string" where
  "template_str JUndefined = ''undefined''"
| "template_str JNull = ''null''"
| "template_str (JStr s) = s"

text \<open>
  \<^verbatim>\<open>String.prototype.includes\<close>: \<open>includes_str s t\<close> is \<^verbatim>\<open>s.includes(t)\<close>, a search for
  \<open>t\<close> as a contiguous run of \<open>s\<close>, tried at every position from the left.
\<close>

fun includes_str :: "string \<Rightarrow> string \<Rightarrow> bool" where
  "includes_str [] t = (t = [])"
| "includes_str (c # s) t = (prefix t (c # s) \<or> includes_str s t)"

text \<open>An error object: what is thrown by the remote client or by the wrapper.\<close>

record js_error =
  error_name :: string
  message :: js_value

text \<open>\<^verbatim>\<open>new Error(msg)\<close>.\<close>

definition new_Error :: "string \<Rightarrow> js_error" where
  "new_Error msg = \<lparr>error_name = ''Error'', message = JStr msg\<rparr>"

section \<open>Data model\<close>

text \<open>
  Modelled from the spec: the declarations of \<^verbatim>\<open>BacklogProject\<close>, \<^verbatim>\<open>BacklogIssue\<close> and
  \<^verbatim>\<open>BacklogWiki\<close> (\<^verbatim>\<open>./types\<close>) are not part of the sources; the records below have the
  fields the specification lists for Project, Issue and Wiki, which are also the fields
  the object literals of the client build.
\<close>

record BacklogProject =
  project_id :: int
  projectKey :: js_value
  project_name :: js_value
  textFormattingRule :: js_value

record BacklogIssue =
  issue_id :: int
  issueKey :: js_value
  summary :: js_value
  description :: js_value

record BacklogWiki =
  wiki_id :: int
  wiki_name :: js_value
  content :: js_value

text \<open>
  The objects the remote client answers with. They carry the fields the wrapper reads
  and any number of further ones (\<open>\<dots>_rest\<close>), which the wrapper never looks at.
\<close>

record remote_project =
  rp_id :: int
  rp_projectKey :: js_value
  rp_name :: js_value
  rp_textFormattingRule :: js_value
  rp_rest :: "(string \<times> js_value) list"

record remote_issue =
  ri_id :: int
  ri_issueKey :: js_value
  ri_summary :: js_value
  ri_description :: js_value
  ri_rest :: "(string \<times> js_value) list"

record remote_wiki =
  rw_id :: int
  rw_name :: js_value
  rw_content :: js_value
  rw_rest :: "(string \<times> js_value) list"

section \<open>getProject\<close>

text \<open>
  \<open>client_getProject\<close> is \<^verbatim>\<open>this.client.getProject\<close>: it settles with a project or
  rejects with an error. The \<^verbatim>\<open>catch\<close> block rethrows whatever was thrown inside
  \<^verbatim>\<open>try\<close>, the validation error included.
\<close>

definition getProject ::
  "(string \<Rightarrow> js_error + remote_project) \<Rightarrow> string \<Rightarrow> js_error + BacklogProject" where
  "getProject client_getProject key =
     (case client_getProject key of
        Inl error \<Rightarrow> Inl error
      | Inr project \<Rightarrow>
          if rp_textFormattingRule project \<noteq> JStr ''markdown''
          then Inl (new_Error (''Project '' @ key @ '' does not use markdown formatting (uses: ''
                                @ template_str (rp_textFormattingRule project) @ '')''))
          else Inr \<lparr>project_id = rp_id project,
                    projectKey = rp_projectKey project,
                    project_name = rp_name project,
                    textFormattingRule = rp_textFormattingRule project\<rparr>)"

section \<open>getIssues\<close>

text \<open>The object literal mapped over every fetched issue, also used by \<^verbatim>\<open>getIssue\<close>.\<close>

definition mapIssue :: "remote_issue \<Rightarrow> BacklogIssue" where
  "mapIssue issue =
     \<lparr>issue_id = ri_id issue,
      issueKey = ri_issueKey issue,
      summary = ri_summary issue,
      description = js_or (ri_description issue) (JStr '''')\<rparr>"

text \<open>The argument of \<^verbatim>\<open>this.client.getIssues\<close>.\<close>

record issues_request =
  req_projectId :: "int list"
  req_offset :: nat
  req_count :: nat

text \<open>The local variables of \<^verbatim>\<open>getIssues\<close>, and the requests sent so far.\<close>

record getIssues_state =
  allIssues :: "BacklogIssue list"
  offset :: nat
  hasMoreIssues :: bool
  requests :: "issues_request list"

text \<open>What a call of \<^verbatim>\<open>getIssues\<close> ends with: the value or the error, and the requests sent.\<close>

record getIssues_result =
  gi_outcome :: "js_error + BacklogIssue list"
  gi_requests :: "issues_request list"

definition count :: nat where
  "count = 100"

text \<open>
  The remote service is an oracle: \<open>remote k\<close> is how the \<open>k\<close>-th request sent during
  this call (counted from 0) settles, with a page of issues or with an error. Nothing
  bounds the number of pages, so the loop need not end: not returning is \<open>None\<close>.
\<close>

partial_function (option) getIssues_loop ::
  "(nat \<Rightarrow> js_error + remote_issue list) \<Rightarrow> int \<Rightarrow> getIssues_state \<Rightarrow> getIssues_result option"
where
  "getIssues_loop remote projectId st =
     (if hasMoreIssues st then
        (let req = \<lparr>req_projectId = [projectId], req_offset = offset st, req_count = count\<rparr>;
             st1 = st\<lparr>requests := requests st @ [req]\<rparr>
         in case remote (length (requests st)) of
              Inl error \<Rightarrow> Some \<lparr>gi_outcome = Inl error, gi_requests = requests st1\<rparr>
            | Inr issues \<Rightarrow>
                if length issues = 0
                then Some \<lparr>gi_outcome = Inr (allIssues st1), gi_requests = requests st1\<rparr>
                else
                  (let mappedIssues = map mapIssue issues;
                       st2 = st1\<lparr>allIssues := allIssues st1 @ mappedIssues\<rparr>
                   in if length issues < count
                      then getIssues_loop remote projectId (st2\<lparr>hasMoreIssues := False\<rparr>)
                      else getIssues_loop remote projectId (st2\<lparr>offset := offset st2 + count\<rparr>)))
      else Some \<lparr>gi_outcome = Inr (allIssues st), gi_requests = requests st\<rparr>)"

definition getIssues ::
  "(nat \<Rightarrow> js_error + remote_issue list) \<Rightarrow> int \<Rightarrow> getIssues_result option" where
  "getIssues remote projectId =
     getIssues_loop remote projectId
       \<lparr>allIssues = [], offset = 0, hasMoreIssues = True, requests = []\<rparr>"

section \<open>The retry helper\<close>

text \<open>What the helper does, in order: it invokes the wrapped call, or it sleeps.\<close>

datatype event = Attempt | Wait nat

text \<open>
  The helper ends by returning a value (\<open>Inr\<close>) or by throwing (\<open>Inl\<close>). What it throws
  is an error object, or \<^verbatim>\<open>undefined\<close> (\<open>None\<close>) when \<^verbatim>\<open>lastError\<close> was never assigned.
\<close>

record 'a retry_result =
  outcome :: "js_error option + 'a"
  trace :: "event list"

definition attempts :: "'a retry_result \<Rightarrow> nat" where
  "attempts r = length (filter (\<lambda>e. e = Attempt) (trace r))"

definition delays :: "'a retry_result \<Rightarrow> nat list" where
  "delays r = concat (map (\<lambda>e. case e of Attempt \<Rightarrow> [] | Wait ms \<Rightarrow> [ms]) (trace r))"

text \<open>The test \<^verbatim>\<open>error.message && error.message.includes('Too Many Requests')\<close>.\<close>

definition is_rate_limited :: "js_error \<Rightarrow> bool" where
  "is_rate_limited error =
     (truthy (message error) \<and>
      (case message error of JStr s \<Rightarrow> includes_str s ''Too Many Requests'' | _ \<Rightarrow> False))"

definition waitTime :: nat where
  "waitTime = 15000"

text \<open>
  \<open>apiCall k\<close> is how the \<open>k\<close>-th invocation of the wrapped call settles; the wrapped
  call takes no argument, so the invocation number is all its result can depend on.
  The \<^verbatim>\<open>for\<close> loop invokes it once per value of \<open>attempt\<close>, starting at 0. The
  parameter \<^verbatim>\<open>operation\<close> only labels the log line and is left out.
\<close>

function retry_loop ::
  "(nat \<Rightarrow> js_error + 'a) \<Rightarrow> int \<Rightarrow> nat \<Rightarrow> js_error option \<Rightarrow> event list \<Rightarrow> 'a retry_result"
where
  "retry_loop apiCall maxRetries attempt lastError tr =
     (if int attempt \<le> maxRetries then
        (case apiCall attempt of
           Inr v \<Rightarrow> \<lparr>outcome = Inr v, trace = tr @ [Attempt]\<rparr>
         | Inl error \<Rightarrow>
             if is_rate_limited error
             then retry_loop apiCall maxRetries (attempt + 1) (Some error)
                    (tr @ [Attempt, Wait waitTime])
             else \<lparr>outcome = Inl (Some error), trace = tr @ [Attempt]\<rparr>)
      else \<lparr>outcome = Inl lastError, trace = tr\<rparr>)"
  by pat_completeness auto
termination
  by (relation "measure (\<lambda>(apiCall, maxRetries, attempt, lastError, tr).
                  nat (maxRetries + 1 - int attempt))") auto

declare retry_loop.simps [simp del]

definition default_maxRetries :: int where
  "default_maxRetries = 3"

definition retryApiCall :: "(nat \<Rightarrow> js_error + 'a) \<Rightarrow> int \<Rightarrow> 'a retry_result" where
  "retryApiCall apiCall maxRetries = retry_loop apiCall maxRetries 0 None []"

section \<open>Single fetches\<close>

text \<open>
  \<^verbatim>\<open>getIssue\<close> and \<^verbatim>\<open>getWiki\<close> wrap a fetch and its mapping in the retry helper, with the
  default number of retries; \<open>client_getIssue k\<close> is how the \<open>k\<close>-th fetch settles.
\<close>

definition getIssue :: "(nat \<Rightarrow> js_error + remote_issue) \<Rightarrow> BacklogIssue retry_result" where
  "getIssue client_getIssue =
     retryApiCall (\<lambda>k. case client_getIssue k of
                          Inl error \<Rightarrow> Inl error
                        | Inr issue \<Rightarrow> Inr (mapIssue issue))
                  default_maxRetries"

definition mapWiki :: "remote_wiki \<Rightarrow> BacklogWiki" where
  "mapWiki wiki =
     \<lparr>wiki_id = rw_id wiki,
      wiki_name = rw_name wiki,
      content = js_or (rw_content wiki) (JStr '''')\<rparr>"

definition getWiki :: "(nat \<Rightarrow> js_error + remote_wiki) \<Rightarrow> BacklogWiki retry_result" where
  "getWiki client_getWiki =
     retryApiCall (\<lambda>k. case client_getWiki k of
                          Inl error \<Rightarrow> Inl error
                        | Inr wiki \<Rightarrow> Inr (mapWiki wiki))
                  default_maxRetries"

text \<open>\<^verbatim>\<open>getWikis\<close> sends one request and maps the answer.\<close>

definition getWikis :: "(int \<Rightarrow> js_error + remote_wiki list) \<Rightarrow> int \<Rightarrow> js_error + BacklogWiki list" where
  "getWikis client_getWikis projectId =
     (case client_getWikis projectId of
        Inl error \<Rightarrow> Inl error
      | Inr wikis \<Rightarrow> Inr (map mapWiki wikis))"

section \<open>Trace properties named by the specification\<close>

text \<open>
  In the specification's state machine every wait leads back to an attempt:
  \<open>waits_lead_to_attempt tr\<close> holds when each \<open>Wait\<close> of the trace \<open>tr\<close> is
  immediately followed by an \<open>Attempt\<close>.
\<close>

fun waits_lead_to_attempt :: "event list \<Rightarrow> bool" where
  "waits_lead_to_attempt [] = True"
| "waits_lead_to_attempt (Attempt # es) = waits_lead_to_attempt es"
| "waits_lead_to_attempt (Wait ms # Attempt # es) = waits_lead_to_attempt es"
| "waits_lead_to_attempt (Wait ms # es) = False"

text \<open>
  A text field of a remote record is normalised in the returned record when a missing
  field (\<^verbatim>\<open>undefined\<close> or \<^verbatim>\<open>null\<close>) has become the empty string and the returned field is
  neither \<^verbatim>\<open>undefined\<close> nor \<^verbatim>\<open>null\<close>.
\<close>

definition missing_normalized :: "js_value \<Rightarrow> js_value \<Rightarrow> bool" where
  "missing_normalized field returned \<longleftrightarrow>
     ((field = JUndefined \<or> field = JNull) \<longrightarrow> returned = JStr '''') \<and>
     returned \<noteq> JUndefined \<and> returned \<noteq> JNull"

section \<open>Auxiliary facts\<close>

subsection \<open>The rate-limit test\<close>

lemma includes_str_sublist: "includes_str s t = sublist t s"
proof (induction s)
  case Nil
  then show ?case by simp
next
  case (Cons c s)
  show ?case
  proof (cases t)
    case Nil
    then show ?thesis by simp
  next
    case (Cons d u)
    then show ?thesis using Cons.IH by (simp add: sublist_Cons_right)
  qed
qed

lemma is_rate_limited_iff:
  "is_rate_limited e \<longleftrightarrow> (\<exists>s. message e = JStr s \<and> sublist ''Too Many Requests'' s)"
  by (cases "message e") (auto simp: is_rate_limited_def includes_str_sublist)

lemma is_rate_limited_infix:
  "message e = JStr (pre @ ''Too Many Requests'' @ post) \<Longrightarrow> is_rate_limited e"
  unfolding is_rate_limited_iff sublist_def by blast

lemma not_truthy_not_rate_limited: "\<not> truthy (message e) \<Longrightarrow> \<not> is_rate_limited e"
  by (simp add: is_rate_limited_def)

subsection \<open>The retry loop\<close>

lemma retry_loop_success:
  "int a \<le> maxRetries \<Longrightarrow> apiCall a = Inr v \<Longrightarrow>
   retry_loop apiCall maxRetries a lastError tr = \<lparr>outcome = Inr v, trace = tr @ [Attempt]\<rparr>"
  by (subst retry_loop.simps) simp

lemma retry_loop_other_error:
  "int a \<le> maxRetries \<Longrightarrow> apiCall a = Inl e \<Longrightarrow> \<not> is_rate_limited e \<Longrightarrow>
   retry_loop apiCall maxRetries a lastError tr =
     \<lparr>outcome = Inl (Some e), trace = tr @ [Attempt]\<rparr>"
  by (subst retry_loop.simps) simp

lemma retry_loop_wait:
  "int a \<le> maxRetries \<Longrightarrow> apiCall a = Inl e \<Longrightarrow> is_rate_limited e \<Longrightarrow>
   retry_loop apiCall maxRetries a lastError tr =
     retry_loop apiCall maxRetries (Suc a) (Some e) (tr @ [Attempt, Wait waitTime])"
  by (subst retry_loop.simps) simp

lemma retry_loop_exhausted:
  "maxRetries < int a \<Longrightarrow>
   retry_loop apiCall maxRetries a lastError tr = \<lparr>outcome = Inl lastError, trace = tr\<rparr>"
  by (subst retry_loop.simps) simp

text \<open>\<open>k\<close> rate-limited attempts in a row, starting at attempt \<open>a\<close>.\<close>

lemma retry_loop_rate_limited:
  assumes "\<And>i. i < k \<Longrightarrow> apiCall (a + i) = Inl (errs (a + i)) \<and> is_rate_limited (errs (a + i))"
      and "int (a + k) \<le> maxRetries + 1"
  shows "retry_loop apiCall maxRetries a lastError tr =
         retry_loop apiCall maxRetries (a + k)
           (if k = 0 then lastError else Some (errs (a + k - 1)))
           (tr @ concat (replicate k [Attempt, Wait waitTime]))"
  using assms
proof (induction k arbitrary: a lastError tr)
  case 0
  then show ?case by simp
next
  case (Suc k)
  from Suc.prems(1)[of 0] have e: "apiCall a = Inl (errs a)" "is_rate_limited (errs a)"
    by auto
  have step: "retry_loop apiCall maxRetries a lastError tr =
              retry_loop apiCall maxRetries (Suc a) (Some (errs a)) (tr @ [Attempt, Wait waitTime])"
    using Suc.prems(2) e by (intro retry_loop_wait) simp_all
  have "retry_loop apiCall maxRetries (Suc a) (Some (errs a)) (tr @ [Attempt, Wait waitTime]) =
        retry_loop apiCall maxRetries (Suc a + k)
           (if k = 0 then Some (errs a) else Some (errs (Suc a + k - 1)))
           ((tr @ [Attempt, Wait waitTime]) @ concat (replicate k [Attempt, Wait waitTime]))"
  proof (rule Suc.IH)
    fix i assume "i < k"
    then show "apiCall (Suc a + i) = Inl (errs (Suc a + i)) \<and> is_rate_limited (errs (Suc a + i))"
      using Suc.prems(1)[of "Suc i"] by simp
  next
    show "int (Suc a + k) \<le> maxRetries + 1" using Suc.prems(2) by simp
  qed
  then show ?case using step by (cases k) auto
qed

lemma retryApiCall_success_after:
  assumes "\<And>i. i < k \<Longrightarrow> apiCall i = Inl (errs i) \<and> is_rate_limited (errs i)"
      and "apiCall k = Inr v" and "int k \<le> maxRetries"
  shows "retryApiCall apiCall maxRetries =
         \<lparr>outcome = Inr v, trace = concat (replicate k [Attempt, Wait waitTime]) @ [Attempt]\<rparr>"
proof -
  have "retry_loop apiCall maxRetries 0 None [] =
        retry_loop apiCall maxRetries (0 + k) (if k = 0 then None else Some (errs (0 + k - 1)))
          ([] @ concat (replicate k [Attempt, Wait waitTime]))"
    by (rule retry_loop_rate_limited) (use assms in simp_all)
  then show ?thesis
    unfolding retryApiCall_def using assms(2,3) by (simp add: retry_loop_success)
qed

lemma retryApiCall_always_rate_limited:
  assumes "\<And>i. i \<le> n \<Longrightarrow> apiCall i = Inl (errs i) \<and> is_rate_limited (errs i)"
  shows "retryApiCall apiCall (int n) =
         \<lparr>outcome = Inl (Some (errs n)), trace = concat (replicate (Suc n) [Attempt, Wait waitTime])\<rparr>"
proof -
  have "retry_loop apiCall (int n) 0 None [] =
        retry_loop apiCall (int n) (0 + Suc n)
          (if Suc n = 0 then None else Some (errs (0 + Suc n - 1)))
          ([] @ concat (replicate (Suc n) [Attempt, Wait waitTime]))"
    by (rule retry_loop_rate_limited) (use assms in simp_all)
  then show ?thesis
    unfolding retryApiCall_def by (simp add: retry_loop_exhausted)
qed

subsection \<open>The pagination loop, one iteration at a time\<close>

lemma getIssues_loop_stopped:
  "\<not> hasMoreIssues st \<Longrightarrow>
   getIssues_loop remote pid st = Some \<lparr>gi_outcome = Inr (allIssues st), gi_requests = requests st\<rparr>"
  by (subst getIssues_loop.simps) simp

lemma getIssues_loop_error:
  "hasMoreIssues st \<Longrightarrow> remote (length (requests st)) = Inl err \<Longrightarrow>
   getIssues_loop remote pid st =
     Some \<lparr>gi_outcome = Inl err,
           gi_requests = requests st @ [\<lparr>req_projectId = [pid], req_offset = offset st, req_count = count\<rparr>]\<rparr>"
  by (subst getIssues_loop.simps) simp

lemma getIssues_loop_short:
  "hasMoreIssues st \<Longrightarrow> remote (length (requests st)) = Inr page \<Longrightarrow> length page < count \<Longrightarrow>
   getIssues_loop remote pid st =
     Some \<lparr>gi_outcome = Inr (allIssues st @ map mapIssue page),
           gi_requests = requests st @ [\<lparr>req_projectId = [pid], req_offset = offset st, req_count = count\<rparr>]\<rparr>"
  by (subst getIssues_loop.simps) (simp add: getIssues_loop_stopped Let_def)

lemma getIssues_loop_full:
  "hasMoreIssues st \<Longrightarrow> remote (length (requests st)) = Inr page \<Longrightarrow> count \<le> length page \<Longrightarrow>
   getIssues_loop remote pid st =
     getIssues_loop remote pid
       \<lparr>allIssues = allIssues st @ map mapIssue page,
        offset = offset st + count,
        hasMoreIssues = True,
        requests = requests st @ [\<lparr>req_projectId = [pid], req_offset = offset st, req_count = count\<rparr>]\<rparr>"
  by (subst getIssues_loop.simps) (cases st, auto simp add: Let_def count_def)

text \<open>Full pages followed by one short page, from any state in which the loop still runs.\<close>

lemma getIssues_loop_pages:
  assumes "hasMoreIssues st"
      and "\<And>i. i \<le> length full \<Longrightarrow> remote (length (requests st) + i) = Inr ((full @ [final]) ! i)"
      and "\<forall>p\<in>set full. count \<le> length p"
      and "length final < count"
  shows "getIssues_loop remote pid st =
         Some \<lparr>gi_outcome = Inr (allIssues st @ map mapIssue (concat (full @ [final]))),
               gi_requests = requests st @
                 map (\<lambda>i. \<lparr>req_projectId = [pid], req_offset = offset st + count * i, req_count = count\<rparr>)
                     [0..<Suc (length full)]\<rparr>"
  using assms
proof (induction full arbitrary: st)
  case Nil
  from Nil.prems(2)[of 0] have "remote (length (requests st)) = Inr final" by simp
  with Nil.prems(1,4) show ?case by (simp add: getIssues_loop_short)
next
  case (Cons p ps)
  let ?req = "\<lparr>req_projectId = [pid], req_offset = offset st, req_count = count\<rparr>"
  let ?st = "\<lparr>allIssues = allIssues st @ map mapIssue p, offset = offset st + count,
              hasMoreIssues = True, requests = requests st @ [?req]\<rparr>"
  from Cons.prems(2)[of 0] have p: "remote (length (requests st)) = Inr p" by simp
  have full: "count \<le> length p" using Cons.prems(3) by simp
  have step: "getIssues_loop remote pid st = getIssues_loop remote pid ?st"
    using Cons.prems(1) p full by (rule getIssues_loop_full)
  have "getIssues_loop remote pid ?st =
        Some \<lparr>gi_outcome = Inr (allIssues ?st @ map mapIssue (concat (ps @ [final]))),
              gi_requests = requests ?st @
                map (\<lambda>i. \<lparr>req_projectId = [pid], req_offset = offset ?st + count * i, req_count = count\<rparr>)
                    [0..<Suc (length ps)]\<rparr>"
  proof (rule Cons.IH)
    show "hasMoreIssues ?st" by simp
  next
    fix i assume "i \<le> length ps"
    then show "remote (length (requests ?st) + i) = Inr ((ps @ [final]) ! i)"
      using Cons.prems(2)[of "Suc i"] by simp
  next
    show "\<forall>p\<in>set ps. count \<le> length p" using Cons.prems(3) by simp
  next
    show "length final < count" by (rule Cons.prems(4))
  qed
  moreover have "map (\<lambda>i. \<lparr>req_projectId = [pid], req_offset = offset st + count * i, req_count = count\<rparr>)
                     [0..<Suc (length (p # ps))] =
                 ?req # map (\<lambda>i. \<lparr>req_projectId = [pid], req_offset = offset ?st + count * i, req_count = count\<rparr>)
                     [0..<Suc (length ps)]"
    by (simp only: length_Cons map_upt_Suc) (simp add: add.assoc)
  ultimately show ?case using step by simp
qed

lemma getIssues_pages:
  assumes "\<And>i. i \<le> length full \<Longrightarrow> remote i = Inr ((full @ [final]) ! i)"
      and "\<forall>p\<in>set full. 100 \<le> length p"
      and "length final < 100"
  shows "getIssues remote pid =
         Some \<lparr>gi_outcome = Inr (map mapIssue (concat (full @ [final]))),
               gi_requests = map (\<lambda>i. \<lparr>req_projectId = [pid], req_offset = 100 * i, req_count = 100\<rparr>)
                                 [0..<Suc (length full)]\<rparr>"
proof -
  let ?st = "\<lparr>allIssues = [], offset = 0, hasMoreIssues = True, requests = []\<rparr>"
  have "getIssues_loop remote pid ?st =
         Some \<lparr>gi_outcome = Inr (allIssues ?st @ map mapIssue (concat (full @ [final]))),
               gi_requests = requests ?st @
                 map (\<lambda>i. \<lparr>req_projectId = [pid], req_offset = offset ?st + count * i, req_count = count\<rparr>)
                     [0..<Suc (length full)]\<rparr>"
    by (rule getIssues_loop_pages) (use assms in \<open>simp_all add: count_def\<close>)
  then show ?thesis
    unfolding getIssues_def by (simp add: count_def)
qed

text \<open>A short page \<open>n\<close> requests ahead bounds the number of requests of the loop.\<close>

lemma getIssues_loop_terminates:
  assumes "remote (length (requests st) + n) = Inr page" and "length page < count"
  shows "\<exists>r. getIssues_loop remote pid st = Some r \<and>
             length (gi_requests r) \<le> length (requests st) + n + 1"
  using assms
proof (induction n arbitrary: st)
  case 0
  show ?case
  proof (cases "hasMoreIssues st")
    case True
    with 0 show ?thesis by (simp add: getIssues_loop_short)
  next
    case False
    then show ?thesis by (simp add: getIssues_loop_stopped)
  qed
next
  case (Suc n)
  show ?case
  proof (cases "hasMoreIssues st")
    case False
    then show ?thesis by (simp add: getIssues_loop_stopped)
  next
    case True
    show ?thesis
    proof (cases "remote (length (requests st))")
      case (Inl err)
      with True show ?thesis by (simp add: getIssues_loop_error)
    next
      case (Inr p)
      show ?thesis
      proof (cases "length p < count")
        case short: True
        with True Inr show ?thesis by (simp add: getIssues_loop_short)
      next
        case False
        let ?st = "\<lparr>allIssues = allIssues st @ map mapIssue p, offset = offset st + count,
              hasMoreIssues = True,
              requests = requests st @ [\<lparr>req_projectId = [pid], req_offset = offset st, req_count = count\<rparr>]\<rparr>"
        have step: "getIssues_loop remote pid st = getIssues_loop remote pid ?st"
          using True Inr False by (intro getIssues_loop_full) simp_all
        have "\<exists>r. getIssues_loop remote pid ?st = Some r \<and>
                  length (gi_requests r) \<le> length (requests ?st) + n + 1"
          by (rule Suc.IH) (use Suc.prems in simp_all)
        then show ?thesis using step by simp
      qed
    qed
  qed
qed

text \<open>
  Without a short page the loop does not return: a run that returns from a state in
  which the loop still runs has met a page of fewer than 100 items, or an error.
\<close>

lemma getIssues_loop_returns_stopped:
  assumes ret: "getIssues_loop remote pid st = Some r"
  shows "(\<forall>k. \<exists>page. remote k = Inr page \<and> count \<le> length page) \<longrightarrow> \<not> hasMoreIssues st"
proof (rule getIssues_loop.raw_induct
         [where P = "\<lambda>remote pid st r.
            (\<forall>k. \<exists>page. remote k = Inr page \<and> count \<le> length page) \<longrightarrow> \<not> hasMoreIssues st",
          OF _ ret])
  fix loop :: "(nat \<Rightarrow> js_error + remote_issue list) \<Rightarrow> int \<Rightarrow> getIssues_state \<Rightarrow> getIssues_result option"
    and remote :: "nat \<Rightarrow> js_error + remote_issue list"
    and pid :: int and st :: getIssues_state and r :: getIssues_result
  assume IH: "\<And>remote pid st r. loop remote pid st = Some r \<Longrightarrow>
                (\<forall>k. \<exists>page. remote k = Inr page \<and> count \<le> length page) \<longrightarrow> \<not> hasMoreIssues st"
  assume body: "(if hasMoreIssues st then
        (let req = \<lparr>req_projectId = [pid], req_offset = offset st, req_count = count\<rparr>;
             st1 = st\<lparr>requests := requests st @ [req]\<rparr>
         in case remote (length (requests st)) of
              Inl error \<Rightarrow> Some \<lparr>gi_outcome = Inl error, gi_requests = requests st1\<rparr>
            | Inr issues \<Rightarrow>
                if length issues = 0
                then Some \<lparr>gi_outcome = Inr (allIssues st1), gi_requests = requests st1\<rparr>
                else
                  (let mappedIssues = map mapIssue issues;
                       st2 = st1\<lparr>allIssues := allIssues st1 @ mappedIssues\<rparr>
                   in if length issues < count
                      then loop remote pid (st2\<lparr>hasMoreIssues := False\<rparr>)
                      else loop remote pid (st2\<lparr>offset := offset st2 + count\<rparr>)))
      else Some \<lparr>gi_outcome = Inr (allIssues st), gi_requests = requests st\<rparr>) = Some r"
  show "(\<forall>k. \<exists>page. remote k = Inr page \<and> count \<le> length page) \<longrightarrow> \<not> hasMoreIssues st"
  proof (intro impI notI)
    assume full: "\<forall>k. \<exists>page. remote k = Inr page \<and> count \<le> length page"
       and more: "hasMoreIssues st"
    from full obtain page where page: "remote (length (requests st)) = Inr page" "count \<le> length page"
      by blast
    let ?st = "st\<lparr>requests := requests st @
                   [\<lparr>req_projectId = [pid], req_offset = offset st, req_count = count\<rparr>],
                 allIssues := allIssues st @ map mapIssue page,
                 offset := offset st + count\<rparr>"
    from body more page have "loop remote pid ?st = Some r"
      by (simp add: Let_def count_def split: if_splits)
    then have "\<not> hasMoreIssues ?st"
      using IH full by blast
    with more show False by simp
  qed
qed

lemma getIssues_never_returns:
  assumes "\<And>k. \<exists>page. remote k = Inr page \<and> 100 \<le> length page"
  shows "getIssues remote pid = None"
proof (cases "getIssues remote pid")
  case None
  then show ?thesis .
next
  case (Some r)
  then have "\<not> hasMoreIssues \<lparr>allIssues = [], offset = 0, hasMoreIssues = True, requests = []\<rparr>"
    using getIssues_loop_returns_stopped [of remote pid _ r] assms
    unfolding getIssues_def count_def by blast
  then show ?thesis by simp
qed

subsection \<open>The mapping of fetched records\<close>

lemma js_or_empty_normalized: "missing_normalized v (js_or v (JStr ''''))"
  by (cases v) (simp_all add: missing_normalized_def js_or_def)

lemma mapIssue_normalized:
  "missing_normalized (ri_description raw) (description (mapIssue raw))"
  by (simp add: mapIssue_def js_or_empty_normalized)

lemma mapWiki_normalized:
  "missing_normalized (rw_content raw) (content (mapWiki raw))"
  by (simp add: mapWiki_def js_or_empty_normalized)

lemma map_mapIssue_normalized:
  "list_all2 (\<lambda>raw issue. missing_normalized (ri_description raw) (description issue))
     raws (map mapIssue raws)"
  by (induction raws) (simp_all add: mapIssue_normalized)

lemma map_mapWiki_normalized:
  "list_all2 (\<lambda>raw wiki. missing_normalized (rw_content raw) (content wiki))
     raws (map mapWiki raws)"
  by (induction raws) (simp_all add: mapWiki_normalized)

lemma attempts_rate_limited_rounds:
  "length (filter (\<lambda>e. e = Attempt) (concat (replicate k [Attempt, Wait ms]))) = k"
  by (induction k) simp_all

section \<open>The retry helper: verified properties\<close>

text \<open>
  C2. A wrapped call that fails with a rate-limit error (an error whose message contains
  \<^verbatim>\<open>Too Many Requests\<close>) on its first two attempts and succeeds on the third: the helper
  sleeps 15000 ms before each of the two retries and returns the success value after
  exactly three attempts. This holds for every retry bound of at least 2, the default 3
  included.
\<close>

theorem retry_twice_then_success:
  assumes "apiCall 0 = Inl e0" and "message e0 = JStr (pre0 @ ''Too Many Requests'' @ post0)"
      and "apiCall 1 = Inl e1" and "message e1 = JStr (pre1 @ ''Too Many Requests'' @ post1)"
      and "apiCall 2 = Inr v"
      and "2 \<le> maxRetries"
  shows "retryApiCall apiCall maxRetries =
           \<lparr>outcome = Inr v, trace = [Attempt, Wait 15000, Attempt, Wait 15000, Attempt]\<rparr>
         \<and> attempts (retryApiCall apiCall maxRetries) = 3
         \<and> delays (retryApiCall apiCall maxRetries) = [15000, 15000]"
proof -
  have limited: "is_rate_limited e0" "is_rate_limited e1"
    using assms(2) is_rate_limited_infix apply blast
    using assms(4) is_rate_limited_infix by blast
  have "\<And>i. i < Suc (Suc 0) \<Longrightarrow>
          apiCall i = Inl ((\<lambda>i. if i = 0 then e0 else e1) i) \<and>
          is_rate_limited ((\<lambda>i. if i = 0 then e0 else e1) i)"
    using assms(1,3) limited by (auto simp: less_Suc_eq)
  moreover have "apiCall (Suc (Suc 0)) = Inr v"
    using assms(5) by (simp add: numeral_2_eq_2)
  moreover have "int (Suc (Suc 0)) \<le> maxRetries"
    using assms(6) by simp
  ultimately have "retryApiCall apiCall maxRetries =
      \<lparr>outcome = Inr v, trace = concat (replicate (Suc (Suc 0)) [Attempt, Wait waitTime]) @ [Attempt]\<rparr>"
    by (rule retryApiCall_success_after)
  then show ?thesis
    by (simp add: waitTime_def attempts_def delays_def)
qed

theorem retry_twice_then_success_witness:
  "retryApiCall
     (\<lambda>k. if k < 2
           then Inl \<lparr>error_name = ''BacklogApiError'', message = JStr ''Too Many Requests''\<rparr>
           else Inr (42 :: int))
     default_maxRetries =
     \<lparr>outcome = Inr 42, trace = [Attempt, Wait 15000, Attempt, Wait 15000, Attempt]\<rparr>
   \<and> attempts (retryApiCall
        (\<lambda>k. if k < 2
              then Inl \<lparr>error_name = ''BacklogApiError'', message = JStr ''Too Many Requests''\<rparr>
              else Inr (42 :: int))
        default_maxRetries) = 3
   \<and> delays (retryApiCall
        (\<lambda>k. if k < 2
              then Inl \<lparr>error_name = ''BacklogApiError'', message = JStr ''Too Many Requests''\<rparr>
              else Inr (42 :: int))
        default_maxRetries) = [15000, 15000]"
  using retry_twice_then_success
    [where apiCall = "\<lambda>k. if k < 2
           then Inl \<lparr>error_name = ''BacklogApiError'', message = JStr ''Too Many Requests''\<rparr>
           else Inr (42 :: int)"
       and ?e0.0 = "\<lparr>error_name = ''BacklogApiError'', message = JStr ''Too Many Requests''\<rparr>"
       and ?e1.0 = "\<lparr>error_name = ''BacklogApiError'', message = JStr ''Too Many Requests''\<rparr>"
       and ?pre0.0 = "[]" and ?post0.0 = "[]" and ?pre1.0 = "[]" and ?post1.0 = "[]"
       and v = 42 and maxRetries = default_maxRetries]
  by (simp add: default_maxRetries_def attempts_def delays_def)

text \<open>
  C5. When the first failure of the wrapped call is an error whose message does not
  contain \<^verbatim>\<open>Too Many Requests\<close> (a message that is no string contains nothing), the helper
  throws that very error after exactly one attempt, without sleeping and without
  retrying.
\<close>

theorem other_error_propagates_at_once:
  assumes "apiCall 0 = Inl e"
      and "\<forall>s. message e = JStr s \<longrightarrow> \<not> sublist ''Too Many Requests'' s"
      and "0 \<le> maxRetries"
  shows "retryApiCall apiCall maxRetries = \<lparr>outcome = Inl (Some e), trace = [Attempt]\<rparr>
         \<and> attempts (retryApiCall apiCall maxRetries) = 1
         \<and> delays (retryApiCall apiCall maxRetries) = []"
proof -
  have "\<not> is_rate_limited e"
    using assms(2) by (simp add: is_rate_limited_iff)
  with assms(1,3) have "retryApiCall apiCall maxRetries = \<lparr>outcome = Inl (Some e), trace = [Attempt]\<rparr>"
    unfolding retryApiCall_def by (simp add: retry_loop_other_error)
  then show ?thesis
    by (simp add: attempts_def delays_def)
qed

theorem other_error_propagates_at_once_witness:
  "retryApiCall
     (\<lambda>k. if k = 0 then Inl \<lparr>error_name = ''BacklogApiError'', message = JStr ''Not Found''\<rparr>
           else Inr (42 :: int))
     default_maxRetries =
     \<lparr>outcome = Inl (Some \<lparr>error_name = ''BacklogApiError'', message = JStr ''Not Found''\<rparr>),
      trace = [Attempt]\<rparr>
   \<and> attempts (retryApiCall
        (\<lambda>k. if k = 0 then Inl \<lparr>error_name = ''BacklogApiError'', message = JStr ''Not Found''\<rparr>
              else Inr (42 :: int))
        default_maxRetries) = 1
   \<and> delays (retryApiCall
        (\<lambda>k. if k = 0 then Inl \<lparr>error_name = ''BacklogApiError'', message = JStr ''Not Found''\<rparr>
              else Inr (42 :: int))
        default_maxRetries) = []"
  using other_error_propagates_at_once
    [where apiCall = "\<lambda>k. if k = 0
           then Inl \<lparr>error_name = ''BacklogApiError'', message = JStr ''Not Found''\<rparr>
           else Inr (42 :: int)"
       and e = "\<lparr>error_name = ''BacklogApiError'', message = JStr ''Not Found''\<rparr>"
       and maxRetries = default_maxRetries]
  by (simp add: default_maxRetries_def attempts_def delays_def includes_str_sublist [symmetric])

text \<open>
  C6. A wrapped call that fails with a rate-limit error on every attempt: with
  \<open>maxRetries = n\<close> the helper makes exactly \<open>n + 1\<close> attempts and then throws the error
  of the last one. With the default \<open>maxRetries = 3\<close> these are 4 attempts.
\<close>

theorem rate_limited_on_every_attempt:
  assumes "\<And>k. k \<le> n \<Longrightarrow> apiCall k = Inl (errs k)"
      and "\<And>k. k \<le> n \<Longrightarrow> \<exists>s. message (errs k) = JStr s \<and> sublist ''Too Many Requests'' s"
  shows "outcome (retryApiCall apiCall (int n)) = Inl (Some (errs n))
         \<and> attempts (retryApiCall apiCall (int n)) = n + 1"
proof -
  have "\<And>i. i \<le> n \<Longrightarrow> apiCall i = Inl (errs i) \<and> is_rate_limited (errs i)"
    using assms by (simp add: is_rate_limited_iff)
  then have "retryApiCall apiCall (int n) =
      \<lparr>outcome = Inl (Some (errs n)), trace = concat (replicate (Suc n) [Attempt, Wait waitTime])\<rparr>"
    by (rule retryApiCall_always_rate_limited)
  then show ?thesis
    by (simp add: attempts_def attempts_rate_limited_rounds del: replicate.simps)
qed

theorem rate_limited_on_every_attempt_witness:
  "outcome (retryApiCall
      (\<lambda>k. Inl \<lparr>error_name = ''BacklogApiError'',
                 message = JStr (if k = 3 then ''429 Too Many Requests'' else ''Too Many Requests'')\<rparr>
            :: js_error + int)
      default_maxRetries) =
     Inl (Some \<lparr>error_name = ''BacklogApiError'', message = JStr ''429 Too Many Requests''\<rparr>)
   \<and> attempts (retryApiCall
      (\<lambda>k. Inl \<lparr>error_name = ''BacklogApiError'',
                 message = JStr (if k = 3 then ''429 Too Many Requests'' else ''Too Many Requests'')\<rparr>
            :: js_error + int)
      default_maxRetries) = 4"
proof -
  have contained: "\<And>k. k \<le> 3 \<Longrightarrow>
      \<exists>s. message \<lparr>error_name = ''BacklogApiError'',
                 message = JStr (if k = (3::nat) then ''429 Too Many Requests'' else ''Too Many Requests'')\<rparr> = JStr s
          \<and> sublist ''Too Many Requests'' s"
    by (simp add: includes_str_sublist [symmetric])
  show ?thesis
    using rate_limited_on_every_attempt
      [where n = 3
         and apiCall = "\<lambda>k. Inl \<lparr>error_name = ''BacklogApiError'',
                 message = JStr (if k = 3 then ''429 Too Many Requests'' else ''Too Many Requests'')\<rparr>
            :: js_error + int"
         and errs = "\<lambda>k. \<lparr>error_name = ''BacklogApiError'',
                 message = JStr (if k = 3 then ''429 Too Many Requests'' else ''Too Many Requests'')\<rparr>",
       OF refl contained]
    by (simp add: default_maxRetries_def)
qed

text \<open>
  C10. When the wrapped call fails with an error object whose \<^verbatim>\<open>message\<close> is not truthy
  (absent, \<^verbatim>\<open>null\<close> or the empty string), the helper treats it as no rate-limit error:
  it throws that error after one attempt, without sleeping and without retrying,
  whatever else the error object says.
\<close>

theorem error_without_message_propagates:
  assumes "apiCall 0 = Inl e"
      and "\<not> truthy (message e)"
      and "0 \<le> maxRetries"
  shows "retryApiCall apiCall maxRetries = \<lparr>outcome = Inl (Some e), trace = [Attempt]\<rparr>
         \<and> attempts (retryApiCall apiCall maxRetries) = 1
         \<and> delays (retryApiCall apiCall maxRetries) = []"
proof -
  from assms(2) have "\<not> is_rate_limited e"
    by (rule not_truthy_not_rate_limited)
  with assms(1,3) have "retryApiCall apiCall maxRetries = \<lparr>outcome = Inl (Some e), trace = [Attempt]\<rparr>"
    unfolding retryApiCall_def by (simp add: retry_loop_other_error)
  then show ?thesis
    by (simp add: attempts_def delays_def)
qed

theorem error_without_message_propagates_witness:
  "retryApiCall
     (\<lambda>k. if k = 0 then Inl \<lparr>error_name = ''Too Many Requests'', message = JUndefined\<rparr>
           else Inr (42 :: int))
     default_maxRetries =
     \<lparr>outcome = Inl (Some \<lparr>error_name = ''Too Many Requests'', message = JUndefined\<rparr>),
      trace = [Attempt]\<rparr>
   \<and> attempts (retryApiCall
        (\<lambda>k. if k = 0 then Inl \<lparr>error_name = ''Too Many Requests'', message = JUndefined\<rparr>
              else Inr (42 :: int))
        default_maxRetries) = 1
   \<and> delays (retryApiCall
        (\<lambda>k. if k = 0 then Inl \<lparr>error_name = ''Too Many Requests'', message = JUndefined\<rparr>
              else Inr (42 :: int))
        default_maxRetries) = []"
  using error_without_message_propagates
    [where apiCall = "\<lambda>k. if k = 0
           then Inl \<lparr>error_name = ''Too Many Requests'', message = JUndefined\<rparr>
           else Inr (42 :: int)"
       and e = "\<lparr>error_name = ''Too Many Requests'', message = JUndefined\<rparr>"
       and maxRetries = default_maxRetries]
  by (simp add: default_maxRetries_def attempts_def delays_def)

text \<open>
  C3. The specification's state machine enters Waiting only while attempts remain and
  leaves it for another attempt, and reaches Failed from an exhausted last attempt
  without a further wait. The helper run on a call that is rate limited at each of the
  four attempts of the default bound sleeps a fourth time after the last attempt and
  only then throws: its trace ends with a wait that no attempt follows.
\<close>

theorem wait_after_last_attempt:
  "retryApiCall
     (\<lambda>k. Inl \<lparr>error_name = ''BacklogApiError'', message = JStr ''Too Many Requests''\<rparr>
           :: js_error + int)
     default_maxRetries =
     \<lparr>outcome = Inl (Some \<lparr>error_name = ''BacklogApiError'', message = JStr ''Too Many Requests''\<rparr>),
      trace = [Attempt, Wait 15000, Attempt, Wait 15000, Attempt, Wait 15000, Attempt, Wait 15000]\<rparr>
   \<and> \<not> waits_lead_to_attempt (trace (retryApiCall
     (\<lambda>k. Inl \<lparr>error_name = ''BacklogApiError'', message = JStr ''Too Many Requests''\<rparr>
           :: js_error + int)
     default_maxRetries))"
proof -
  have "retryApiCall
     (\<lambda>k. Inl \<lparr>error_name = ''BacklogApiError'', message = JStr ''Too Many Requests''\<rparr>
           :: js_error + int) (int 3) =
     \<lparr>outcome = Inl (Some \<lparr>error_name = ''BacklogApiError'', message = JStr ''Too Many Requests''\<rparr>),
      trace = concat (replicate (Suc 3) [Attempt, Wait waitTime])\<rparr>"
    by (rule retryApiCall_always_rate_limited
         [where errs = "\<lambda>k. \<lparr>error_name = ''BacklogApiError'', message = JStr ''Too Many Requests''\<rparr>"])
       (simp add: is_rate_limited_def)
  then show ?thesis
    by (simp add: default_maxRetries_def waitTime_def numeral_3_eq_3)
qed

text \<open>The record \<open>mapIssue\<close> builds, field by field.\<close>

lemma mapIssue_fields:
  "mapIssue fetched =
     \<lparr>issue_id = ri_id fetched,
      issueKey = ri_issueKey fetched,
      summary = ri_summary fetched,
      description = (case ri_description fetched of JStr text \<Rightarrow> JStr text | _ \<Rightarrow> JStr '''')\<rparr>"
  by (cases "ri_description fetched") (simp_all add: mapIssue_def js_or_def)

section \<open>getIssues: verified properties\<close>

text \<open>
  C1. Let the remote service answer the successive requests with the pages \<open>full\<close>, each of
  at least 100 items, and then with a page \<open>final\<close> of fewer than 100 items. Then
  \<open>getIssues\<close> returns one issue record per item of these pages, in the order of the
  pages and of the items within them: the record's id, issue key and summary are those of
  the fetched item, and its description is the fetched description when that is a string
  and the empty string when it is missing. It sends one request per page and none after
  \<open>final\<close>, each with \<open>count = 100\<close>, at the offsets 0, 100, 200, \<dots> For one page of 100
  items followed by one of 40 items this gives 140 issues and the two requests at offsets
  0 and 100.
\<close>

theorem getIssues_pagination:
  assumes "\<And>i. i \<le> length full \<Longrightarrow> remote i = Inr ((full @ [final]) ! i)"
      and "\<forall>p\<in>set full. 100 \<le> length p"
      and "length final < 100"
  shows "getIssues remote projectId =
         Some \<lparr>gi_outcome =
                 Inr (map (\<lambda>fetched.
                             \<lparr>issue_id = ri_id fetched,
                              issueKey = ri_issueKey fetched,
                              summary = ri_summary fetched,
                              description =
                                (case ri_description fetched of
                                   JStr text \<Rightarrow> JStr text
                                 | _ \<Rightarrow> JStr '''')\<rparr>)
                          (concat (full @ [final]))),
               gi_requests =
                 map (\<lambda>i. \<lparr>req_projectId = [projectId], req_offset = 100 * i, req_count = 100\<rparr>)
                     [0..<length full + 1]\<rparr>"
proof -
  have "map mapIssue (concat (full @ [final])) =
        map (\<lambda>fetched.
               \<lparr>issue_id = ri_id fetched,
                issueKey = ri_issueKey fetched,
                summary = ri_summary fetched,
                description =
                  (case ri_description fetched of
                     JStr text \<Rightarrow> JStr text
                   | _ \<Rightarrow> JStr '''')\<rparr>)
            (concat (full @ [final]))"
    by (rule map_cong [OF refl]) (rule mapIssue_fields)
  then show ?thesis
    using getIssues_pages [of full remote final projectId] assms by simp
qed

theorem getIssues_pagination_witness:
  "getIssues
     (\<lambda>k. Inr (if k = 0
                then map (\<lambda>i. \<lparr>ri_id = int i, ri_issueKey = JStr ''PRJ'',
                                 ri_summary = JStr ''first page'', ri_description = JUndefined,
                                 ri_rest = [(''status'', JStr ''Open'')]\<rparr>)
                         [0..<100]
                else map (\<lambda>i. \<lparr>ri_id = int i, ri_issueKey = JStr ''PRJ'',
                                 ri_summary = JStr ''second page'', ri_description = JStr ''text'',
                                 ri_rest = []\<rparr>)
                         [100..<140]))
     7 =
   Some \<lparr>gi_outcome =
           Inr (map (\<lambda>i. \<lparr>issue_id = int i, issueKey = JStr ''PRJ'',
                            summary = JStr ''first page'', description = JStr ''''\<rparr>)
                    [0..<100] @
                map (\<lambda>i. \<lparr>issue_id = int i, issueKey = JStr ''PRJ'',
                            summary = JStr ''second page'', description = JStr ''text''\<rparr>)
                    [100..<140]),
         gi_requests = [\<lparr>req_projectId = [7], req_offset = 0, req_count = 100\<rparr>,
                        \<lparr>req_projectId = [7], req_offset = 100, req_count = 100\<rparr>]\<rparr>
   \<and> length (map (\<lambda>i. \<lparr>issue_id = int i, issueKey = JStr ''PRJ'',
                         summary = JStr ''first page'', description = JStr ''''\<rparr>)
                 [0..<100] @
             map (\<lambda>i. \<lparr>issue_id = int i, issueKey = JStr ''PRJ'',
                         summary = JStr ''second page'', description = JStr ''text''\<rparr>)
                 [100..<140]) = 140"
proof -
  let ?p1 = "map (\<lambda>i. \<lparr>ri_id = int i, ri_issueKey = JStr ''PRJ'',
                         ri_summary = JStr ''first page'', ri_description = JUndefined,
                         ri_rest = [(''status'', JStr ''Open'')]\<rparr>)
                 [0..<100]"
  let ?p2 = "map (\<lambda>i. \<lparr>ri_id = int i, ri_issueKey = JStr ''PRJ'',
                         ri_summary = JStr ''second page'', ri_description = JStr ''text'',
                         ri_rest = []\<rparr>)
                 [100..<140]"
  let ?remote = "\<lambda>k::nat. Inr (if k = 0 then ?p1 else ?p2) :: js_error + remote_issue list"
  have pages: "\<And>i. i \<le> length [?p1] \<Longrightarrow> ?remote i = Inr (([?p1] @ [?p2]) ! i)"
    by (simp add: nth_Cons' del: upt_rec_numeral)
  have full: "\<forall>p\<in>set [?p1]. 100 \<le> length p"
    by (simp del: upt_rec_numeral)
  have final: "length ?p2 < 100"
    by (simp del: upt_rec_numeral)
  show ?thesis
    using getIssues_pagination [of "[?p1]" ?remote ?p2 7, OF pages full final]
    by (simp add: comp_def del: upt_rec_numeral)
qed

text \<open>
  C7. When the first request is answered with an empty page, \<open>getIssues\<close> returns the
  empty sequence and has sent exactly that one request.
\<close>

theorem getIssues_first_page_empty:
  assumes "remote 0 = Inr []"
  shows "getIssues remote projectId =
         Some \<lparr>gi_outcome = Inr [],
               gi_requests = [\<lparr>req_projectId = [projectId], req_offset = 0, req_count = 100\<rparr>]\<rparr>"
  unfolding getIssues_def
  by (subst getIssues_loop.simps) (simp add: assms count_def)

theorem getIssues_first_page_empty_witness:
  "getIssues
     (\<lambda>k. if k = 0 then Inr []
           else Inr [\<lparr>ri_id = 1, ri_issueKey = JStr ''PRJ-1'', ri_summary = JStr ''One'',
                      ri_description = JStr ''text'', ri_rest = []\<rparr>])
     7 =
   Some \<lparr>gi_outcome = Inr [],
         gi_requests = [\<lparr>req_projectId = [7], req_offset = 0, req_count = 100\<rparr>]\<rparr>"
  using getIssues_first_page_empty
    [where remote = "\<lambda>k. if k = 0 then Inr []
           else Inr [\<lparr>ri_id = 1, ri_issueKey = JStr ''PRJ-1'', ri_summary = JStr ''One'',
                      ri_description = JStr ''text'', ri_rest = []\<rparr>]"
       and projectId = 7]
  by simp

text \<open>
  C9. Whatever the remote service answers otherwise, if the answer to some request, the
  one numbered \<open>n\<close>, is a page of fewer than 100 items (an empty page included), then
  \<open>getIssues\<close> returns or throws, after at most \<open>n + 1\<close> requests.
\<close>

theorem getIssues_terminates:
  assumes "remote n = Inr page" and "length page < 100"
  shows "\<exists>r. getIssues remote projectId = Some r \<and> length (gi_requests r) \<le> n + 1"
proof -
  let ?st = "\<lparr>allIssues = [], offset = 0, hasMoreIssues = True, requests = []\<rparr>"
  have "\<exists>r. getIssues_loop remote projectId ?st = Some r \<and>
            length (gi_requests r) \<le> length (requests ?st) + n + 1"
    by (rule getIssues_loop_terminates [where page = page]) (use assms in \<open>simp_all add: count_def\<close>)
  then show ?thesis
    by (simp add: getIssues_def)
qed

theorem getIssues_terminates_witness:
  "\<exists>r. getIssues
          (\<lambda>k. if k < 2
                then Inr (replicate 100 \<lparr>ri_id = 1, ri_issueKey = JStr ''PRJ-1'', ri_summary = JStr ''One'',
                                          ri_description = JStr ''text'', ri_rest = []\<rparr>)
                else Inr [])
          7 = Some r
        \<and> length (gi_requests r) \<le> 3"
  using getIssues_terminates
    [where remote = "\<lambda>k. if k < 2
                then Inr (replicate 100 \<lparr>ri_id = 1, ri_issueKey = JStr ''PRJ-1'', ri_summary = JStr ''One'',
                                          ri_description = JStr ''text'', ri_rest = []\<rparr>)
                else Inr []"
       and n = 2 and page = "[]" and projectId = 7]
  by simp

section \<open>getProject: verified properties\<close>

text \<open>
  C4. For a project the remote service answers with: if its \<open>textFormattingRule\<close> is not
  \<^verbatim>\<open>markdown\<close>, \<open>getProject\<close> throws the validation error and returns no value; if it is
  \<^verbatim>\<open>markdown\<close>, \<open>getProject\<close> returns the record of its id, project key, name and
  formatting rule.
\<close>

theorem getProject_requires_markdown:
  assumes "client_getProject key = Inr project"
  shows "(rp_textFormattingRule project \<noteq> JStr ''markdown'' \<longrightarrow>
            getProject client_getProject key =
              Inl (new_Error (''Project '' @ key @ '' does not use markdown formatting (uses: ''
                              @ template_str (rp_textFormattingRule project) @ '')''))
            \<and> (\<forall>returned. getProject client_getProject key \<noteq> Inr returned))
       \<and> (rp_textFormattingRule project = JStr ''markdown'' \<longrightarrow>
            getProject client_getProject key =
              Inr \<lparr>project_id = rp_id project,
                   projectKey = rp_projectKey project,
                   project_name = rp_name project,
                   textFormattingRule = JStr ''markdown''\<rparr>)"
  using assms by (simp add: getProject_def)

theorem getProject_requires_markdown_witness:
  "getProject
     (\<lambda>key. Inr \<lparr>rp_id = 10, rp_projectKey = JStr ''PRJ'', rp_name = JStr ''Project'',
                  rp_textFormattingRule = JStr ''backlog'', rp_rest = [(''archived'', JNull)]\<rparr>)
     ''PRJ'' =
     Inl \<lparr>error_name = ''Error'',
          message = JStr ''Project PRJ does not use markdown formatting (uses: backlog)''\<rparr>
   \<and> getProject
     (\<lambda>key. Inr \<lparr>rp_id = 10, rp_projectKey = JStr ''PRJ'', rp_name = JStr ''Project'',
                  rp_textFormattingRule = JStr ''markdown'', rp_rest = [(''archived'', JNull)]\<rparr>)
     ''PRJ'' =
     Inr \<lparr>project_id = 10, projectKey = JStr ''PRJ'', project_name = JStr ''Project'',
          textFormattingRule = JStr ''markdown''\<rparr>"
  using getProject_requires_markdown
    [where client_getProject =
        "\<lambda>key. Inr \<lparr>rp_id = 10, rp_projectKey = JStr ''PRJ'', rp_name = JStr ''Project'',
                  rp_textFormattingRule = JStr ''backlog'', rp_rest = [(''archived'', JNull)]\<rparr>"
       and key = "''PRJ''"
       and project = "\<lparr>rp_id = 10, rp_projectKey = JStr ''PRJ'', rp_name = JStr ''Project'',
                  rp_textFormattingRule = JStr ''backlog'', rp_rest = [(''archived'', JNull)]\<rparr>"]
    getProject_requires_markdown
    [where client_getProject =
        "\<lambda>key. Inr \<lparr>rp_id = 10, rp_projectKey = JStr ''PRJ'', rp_name = JStr ''Project'',
                  rp_textFormattingRule = JStr ''markdown'', rp_rest = [(''archived'', JNull)]\<rparr>"
       and key = "''PRJ''"
       and project = "\<lparr>rp_id = 10, rp_projectKey = JStr ''PRJ'', rp_name = JStr ''Project'',
                  rp_textFormattingRule = JStr ''markdown'', rp_rest = [(''archived'', JNull)]\<rparr>"]
  by (simp add: new_Error_def)

section \<open>Missing text fields: verified properties\<close>

text \<open>
  C8. In every record that \<open>getIssues\<close>, \<open>getIssue\<close>, \<open>getWikis\<close> and \<open>getWiki\<close> return,
  the description (of an issue) or content (of a wiki) is the empty string when the
  field is missing from the remote record, and is never \<^verbatim>\<open>undefined\<close> or \<^verbatim>\<open>null\<close>. The
  remote records are: for \<open>getIssues\<close> the items of the fetched pages, in order; for
  \<open>getWikis\<close> the items of the answer; for \<open>getIssue\<close> and \<open>getWiki\<close> the record of the
  fetch that succeeds, after rate-limited fetches within the default retry bound.
\<close>

theorem missing_text_becomes_empty_string:
  assumes "\<And>i. i \<le> length full \<Longrightarrow> client_getIssues i = Inr ((full @ [final]) ! i)"
      and "\<forall>p\<in>set full. 100 \<le> length p"
      and "length final < 100"
      and "\<And>i. i < k \<Longrightarrow> client_getIssue i = Inl (errs i) \<and> is_rate_limited (errs i)"
      and "int k \<le> default_maxRetries"
      and "client_getIssue k = Inr fetched_issue"
      and "client_getWikis projectId = Inr fetched_wikis"
      and "\<And>i. i < j \<Longrightarrow> client_getWiki i = Inl (errs' i) \<and> is_rate_limited (errs' i)"
      and "int j \<le> default_maxRetries"
      and "client_getWiki j = Inr fetched_wiki"
  shows "(\<exists>r issues. getIssues client_getIssues projectId = Some r \<and> gi_outcome r = Inr issues \<and>
            list_all2 (\<lambda>raw issue. missing_normalized (ri_description raw) (description issue))
              (concat (full @ [final])) issues)
       \<and> (\<exists>issue. outcome (getIssue client_getIssue) = Inr issue \<and>
            missing_normalized (ri_description fetched_issue) (description issue))
       \<and> (\<exists>wikis. getWikis client_getWikis projectId = Inr wikis \<and>
            list_all2 (\<lambda>raw wiki. missing_normalized (rw_content raw) (content wiki))
              fetched_wikis wikis)
       \<and> (\<exists>wiki. outcome (getWiki client_getWiki) = Inr wiki \<and>
            missing_normalized (rw_content fetched_wiki) (content wiki))"
proof -
  have issues: "getIssues client_getIssues projectId =
      Some \<lparr>gi_outcome = Inr (map mapIssue (concat (full @ [final]))),
            gi_requests =
              map (\<lambda>i. \<lparr>req_projectId = [projectId], req_offset = 100 * i, req_count = 100\<rparr>)
                  [0..<Suc (length full)]\<rparr>"
    using assms(1-3) by (rule getIssues_pages)
  have "list_all2 (\<lambda>raw issue. missing_normalized (ri_description raw) (description issue))
          (concat (full @ [final])) (map mapIssue (concat (full @ [final])))"
    by (rule map_mapIssue_normalized)
  with issues have part1: "\<exists>r issues. getIssues client_getIssues projectId = Some r \<and>
      gi_outcome r = Inr issues \<and>
      list_all2 (\<lambda>raw issue. missing_normalized (ri_description raw) (description issue))
        (concat (full @ [final])) issues"
    by simp
  have "getIssue client_getIssue =
      \<lparr>outcome = Inr (mapIssue fetched_issue),
       trace = concat (replicate k [Attempt, Wait waitTime]) @ [Attempt]\<rparr>"
    unfolding getIssue_def
    by (rule retryApiCall_success_after [where errs = errs]) (use assms(4-6) in simp_all)
  then have part2: "\<exists>issue. outcome (getIssue client_getIssue) = Inr issue \<and>
      missing_normalized (ri_description fetched_issue) (description issue)"
    by (simp add: mapIssue_normalized)
  have part3: "\<exists>wikis. getWikis client_getWikis projectId = Inr wikis \<and>
      list_all2 (\<lambda>raw wiki. missing_normalized (rw_content raw) (content wiki)) fetched_wikis wikis"
    using assms(7) by (simp add: getWikis_def map_mapWiki_normalized)
  have "getWiki client_getWiki =
      \<lparr>outcome = Inr (mapWiki fetched_wiki),
       trace = concat (replicate j [Attempt, Wait waitTime]) @ [Attempt]\<rparr>"
    unfolding getWiki_def
    by (rule retryApiCall_success_after [where errs = errs']) (use assms(8-10) in simp_all)
  then have part4: "\<exists>wiki. outcome (getWiki client_getWiki) = Inr wiki \<and>
      missing_normalized (rw_content fetched_wiki) (content wiki)"
    by (simp add: mapWiki_normalized)
  from part1 part2 part3 part4 show ?thesis by blast
qed

theorem missing_text_becomes_empty_string_witness:
  "(\<exists>r issues.
      getIssues
        (\<lambda>k. Inr [\<lparr>ri_id = 5, ri_issueKey = JStr ''PRJ-5'', ri_summary = JStr ''Five'',
                    ri_description = JUndefined, ri_rest = []\<rparr>])
        7 = Some r
      \<and> gi_outcome r = Inr issues
      \<and> list_all2 (\<lambda>raw issue. description issue = JStr '''')
          [\<lparr>ri_id = 5, ri_issueKey = JStr ''PRJ-5'', ri_summary = JStr ''Five'',
            ri_description = JUndefined, ri_rest = []\<rparr>]
          issues)
   \<and> (\<exists>issue.
        outcome (getIssue
          (\<lambda>k. Inr \<lparr>ri_id = 5, ri_issueKey = JStr ''PRJ-5'', ri_summary = JStr ''Five'',
                     ri_description = JUndefined, ri_rest = []\<rparr>)) = Inr issue
        \<and> description issue = JStr '''')
   \<and> (\<exists>wikis.
        getWikis (\<lambda>p. Inr [\<lparr>rw_id = 8, rw_name = JStr ''Home'', rw_content = JUndefined, rw_rest = []\<rparr>]) 7
          = Inr wikis
        \<and> list_all2 (\<lambda>raw wiki. content wiki = JStr '''')
            [\<lparr>rw_id = 8, rw_name = JStr ''Home'', rw_content = JUndefined, rw_rest = []\<rparr>]
            wikis)
   \<and> (\<exists>wiki.
        outcome (getWiki
          (\<lambda>k. if k = 0
                then Inl \<lparr>error_name = ''BacklogApiError'', message = JStr ''Too Many Requests''\<rparr>
                else Inr \<lparr>rw_id = 8, rw_name = JStr ''Home'', rw_content = JUndefined, rw_rest = []\<rparr>))
          = Inr wiki
        \<and> content wiki = JStr '''')"
proof -
  let ?x = "\<lparr>ri_id = 5, ri_issueKey = JStr ''PRJ-5'', ri_summary = JStr ''Five'',
             ri_description = JUndefined, ri_rest = []\<rparr>"
  let ?w = "\<lparr>rw_id = 8, rw_name = JStr ''Home'', rw_content = JUndefined, rw_rest = []\<rparr>"
  let ?e = "\<lparr>error_name = ''BacklogApiError'', message = JStr ''Too Many Requests''\<rparr>"
  let ?issues = "\<lambda>k::nat. Inr [?x] :: js_error + remote_issue list"
  let ?issue = "\<lambda>k::nat. Inr ?x :: js_error + remote_issue"
  let ?wikis = "\<lambda>p::int. Inr [?w] :: js_error + remote_wiki list"
  let ?wiki = "\<lambda>k::nat. if k = 0 then Inl ?e else Inr ?w"
  have h1: "\<And>i. i \<le> length [] \<Longrightarrow> ?issues i = Inr (([] @ [[?x]]) ! i)"
    by simp
  have h2: "\<forall>p\<in>set ([] :: remote_issue list list). 100 \<le> length p"
    by simp
  have h3: "length [?x] < 100"
    by simp
  have h4: "\<And>i. i < 0 \<Longrightarrow> ?issue i = Inl ((\<lambda>i. ?e) i) \<and> is_rate_limited ((\<lambda>i. ?e) i)"
    by simp
  have h5: "int 0 \<le> default_maxRetries"
    by (simp add: default_maxRetries_def)
  have h6: "?issue 0 = Inr ?x"
    by simp
  have h7: "?wikis 7 = Inr [?w]"
    by simp
  have h8: "\<And>i. i < 1 \<Longrightarrow> ?wiki i = Inl ((\<lambda>i. ?e) i) \<and> is_rate_limited ((\<lambda>i. ?e) i)"
    by (simp add: is_rate_limited_def)
  have h9: "int 1 \<le> default_maxRetries"
    by (simp add: default_maxRetries_def)
  have h10: "?wiki 1 = Inr ?w"
    by simp
  show ?thesis
    using missing_text_becomes_empty_string
      [where full = "[]" and final = "[?x]" and client_getIssues = ?issues
         and k = 0 and errs = "\<lambda>i. ?e" and client_getIssue = ?issue and fetched_issue = ?x
         and client_getWikis = ?wikis and projectId = 7 and fetched_wikis = "[?w]"
         and j = 1 and errs' = "\<lambda>i. ?e" and client_getWiki = ?wiki and fetched_wiki = ?w,
       OF h1 h2 h3 h4 h5 h6 h7 h8 h9 h10]
    by (auto simp add: missing_normalized_def list_all2_Cons1)
qed

end
